theory Spec2Isabelle
  imports Main "HOL-Library.Multiset"
begin

section \<open>Python values used by the bot\<close>

text \<open>
  The bot is one Python module, \<^verbatim>\<open>event_reminder_bot.py\<close>. Its functions are
  embedded one by one: every database document is a record, the three collections are
  lists of documents, the conversation context of a user is a record, and a handler is
  a function from the incoming update and the current context and store to an
  \<open>outcome\<close>: the new context, the new store, the replies sent and the exception that
  left the handler, if any.

  A Python \<^verbatim>\<open>str\<close> is a \<open>string\<close> holding its UTF-8 bytes.
\<close>

datatype py_exc =
    ValueError | ParserError | TypeError | OverflowError | KeyError | IndexError
  | InvalidId | PyMongoError | TelegramError

text \<open>\<^verbatim>\<open>except ValueError\<close> also catches dateutil's \<^verbatim>\<open>ParserError\<close>, its subclass.\<close>

definition isinstance_ValueError :: "py_exc \<Rightarrow> bool" where
  "isinstance_ValueError e = (e = ValueError \<or> e = ParserError)"

subsection \<open>Decimal and hexadecimal text\<close>

definition digit_char :: "nat \<Rightarrow> char" where
  "digit_char n = char_of (48 + n)"

fun str_nat :: "nat \<Rightarrow> string" where
  "str_nat n = (if n < 10 then [digit_char n] else str_nat (n div 10) @ [digit_char (n mod 10)])"

declare str_nat.simps [simp del]

definition str_int :: "int \<Rightarrow> string" where
  "str_int i = (if i < 0 then CHR ''-'' # str_nat (nat (- i)) else str_nat (nat i))"

text \<open>\<^verbatim>\<open>%02d\<close>-style zero padding, as \<^verbatim>\<open>strftime\<close> does for its fields.\<close>

definition zfill :: "nat \<Rightarrow> string \<Rightarrow> string" where
  "zfill w s = replicate (w - length s) CHR ''0'' @ s"

definition is_digit :: "char \<Rightarrow> bool" where
  "is_digit c = (48 \<le> (of_char c :: nat) \<and> (of_char c :: nat) \<le> 57)"

definition digit_val :: "char \<Rightarrow> nat" where
  "digit_val c = of_char c - 48"

definition int_of_digits :: "string \<Rightarrow> int" where
  "int_of_digits s = int (foldl (\<lambda>acc c. 10 * acc + digit_val c) 0 s)"

definition hex_char :: "nat \<Rightarrow> char" where
  "hex_char n = (if n < 10 then char_of (48 + n) else char_of (87 + n))"

definition hex_val :: "char \<Rightarrow> nat option" where
  "hex_val c =
     (let b = (of_char c :: nat) in
      if 48 \<le> b \<and> b \<le> 57 then Some (b - 48)
      else if 97 \<le> b \<and> b \<le> 102 then Some (b - 87)
      else if 65 \<le> b \<and> b \<le> 70 then Some (b - 55)
      else None)"

fun to_hex :: "nat \<Rightarrow> nat \<Rightarrow> string" where
  "to_hex 0 n = []"
| "to_hex (Suc k) n = to_hex k (n div 16) @ [hex_char (n mod 16)]"

fun from_hex :: "nat \<Rightarrow> string \<Rightarrow> nat option" where
  "from_hex acc [] = Some acc"
| "from_hex acc (c # cs) =
     (case hex_val c of None \<Rightarrow> None | Some v \<Rightarrow> from_hex (16 * acc + v) cs)"

subsection \<open>Strings\<close>

fun startswith :: "string \<Rightarrow> string \<Rightarrow> bool" where
  "startswith s [] = True"
| "startswith [] (p # ps) = False"
| "startswith (c # cs) (p # ps) = (c = p \<and> startswith cs ps)"

text \<open>\<^verbatim>\<open>s.split(sep)\<close> for a one-character separator: never empty, empty pieces kept.\<close>

fun split_on :: "char \<Rightarrow> string \<Rightarrow> string list" where
  "split_on sep [] = [[]]"
| "split_on sep (c # cs) =
     (if c = sep then [] # split_on sep cs
      else (case split_on sep cs of
              [] \<Rightarrow> [[c]]
            | w # ws \<Rightarrow> (c # w) # ws))"

text \<open>Indexing a Python list with a non-negative index; out of range raises.\<close>

definition py_index :: "'a list \<Rightarrow> nat \<Rightarrow> py_exc + 'a" where
  "py_index xs i = (if i < length xs then Inr (xs ! i) else Inl IndexError)"









subsection \<open>\<^verbatim>\<open>datetime\<close>\<close>

text \<open>
  A \<^verbatim>\<open>datetime\<close> is its calendar fields and its \<^verbatim>\<open>tzinfo\<close>: \<open>None\<close> for a naive
  value, otherwise the UTC offset in minutes (\<^verbatim>\<open>pytz.UTC\<close> is \<open>Some 0\<close>).
\<close>

record datetime =
  year :: int
  month :: int
  day :: int
  hour :: int
  minute :: int
  second :: int
  microsecond :: int
  tzinfo :: "int option"

definition is_leap :: "int \<Rightarrow> bool" where
  "is_leap y = (y mod 4 = 0 \<and> (y mod 400 = 0 \<or> 0 < y mod 100))"

definition days_in_month :: "int \<Rightarrow> int \<Rightarrow> int" where
  "days_in_month y m =
     (if m = 2 then (if is_leap y then 29 else 28)
      else if m = 4 \<or> m = 6 \<or> m = 9 \<or> m = 11 then 30 else 31)"

definition days_before_year :: "int \<Rightarrow> int" where
  "days_before_year y = (y - 1) * 365 + (y - 1) div 4 - (y - 1) div 100 + (y - 1) div 400"

definition days_before_month :: "int \<Rightarrow> int \<Rightarrow> int" where
  "days_before_month y m = sum_list (map (\<lambda>k. days_in_month y (int k)) [1 ..< nat m])"

definition ymd2ord :: "int \<Rightarrow> int \<Rightarrow> int \<Rightarrow> int" where
  "ymd2ord y m d = days_before_year y + days_before_month y m + d"

text \<open>
  The instant of a datetime in microseconds, its offset subtracted. A naive value counts
  as UTC, which is also how the database driver stores it.
\<close>

definition utc_micros :: "datetime \<Rightarrow> int" where
  "utc_micros t =
     ((((ymd2ord (year t) (month t) (day t) * 24 + hour t) * 60 + minute t
         - (case tzinfo t of None \<Rightarrow> 0 | Some off \<Rightarrow> off)) * 60) + second t) * 1000000
     + microsecond t"

definition dt_fields :: "datetime \<Rightarrow> int list" where
  "dt_fields t = [year t, month t, day t, hour t, minute t, second t, microsecond t]"

fun lex_less :: "int list \<Rightarrow> int list \<Rightarrow> bool" where
  "lex_less [] [] = False"
| "lex_less [] (y # ys) = True"
| "lex_less (x # xs) [] = False"
| "lex_less (x # xs) (y # ys) = (x < y \<or> (x = y \<and> lex_less xs ys))"

text \<open>
  \<^verbatim>\<open>a < b\<close> on datetimes: with the same offset the field tuples are compared; with
  different offsets the instants are; a naive value against an aware one raises
  \<^verbatim>\<open>TypeError\<close>.
\<close>

definition dt_lt :: "datetime \<Rightarrow> datetime \<Rightarrow> py_exc + bool" where
  "dt_lt a b =
     (if tzinfo a = tzinfo b then Inr (lex_less (dt_fields a) (dt_fields b))
      else (case (tzinfo a, tzinfo b) of
              (Some x, Some y) \<Rightarrow> Inr (utc_micros a < utc_micros b)
            | _ \<Rightarrow> Inl TypeError))"

text \<open>\<^verbatim>\<open>datetime.now(pytz.UTC)\<close>: the clock's reading, aware, at offset 0.\<close>

definition now_utc :: "datetime \<Rightarrow> datetime" where
  "now_utc clock = clock\<lparr>tzinfo := Some 0\<rparr>"

text \<open>\<^verbatim>\<open>t.strftime('%Y-%m-%d %H:%M')\<close>, for the years 1000 to 9999.\<close>

definition strftime_ymd_hm :: "datetime \<Rightarrow> string" where
  "strftime_ymd_hm t =
     zfill 4 (str_nat (nat (year t))) @ ''-'' @ zfill 2 (str_nat (nat (month t))) @ ''-''
     @ zfill 2 (str_nat (nat (day t))) @ '' '' @ zfill 2 (str_nat (nat (hour t))) @ '':''
     @ zfill 2 (str_nat (nat (minute t)))"

text \<open>
  \<^verbatim>\<open>dateutil.parser.parse\<close> is a library function and a parameter of the handler that
  calls it. On a text of the form the bot asks for, \<^verbatim>\<open>YYYY-MM-DD HH:MM\<close>, it returns
  the naive datetime with these fields, and \<^verbatim>\<open>ParserError\<close> when a field is out of
  range; \<open>parse_ymd_hm\<close> is the parser on texts of that form only (it rejects every
  other text, which the library does not).
\<close>

definition parse_ymd_hm :: "string \<Rightarrow> py_exc + datetime" where
  "parse_ymd_hm s =
     (let y = int_of_digits (take 4 s); m = int_of_digits (take 2 (drop 5 s));
          d = int_of_digits (take 2 (drop 8 s)); h = int_of_digits (take 2 (drop 11 s));
          mi = int_of_digits (take 2 (drop 14 s))
      in if length s = 16 \<and> list_all is_digit (take 4 s @ take 2 (drop 5 s)
              @ take 2 (drop 8 s) @ take 2 (drop 11 s) @ take 2 (drop 14 s))
            \<and> [s ! 4, s ! 7, s ! 10, s ! 13] = ''-- :''
            \<and> 1 \<le> y \<and> 1 \<le> m \<and> m \<le> 12 \<and> 1 \<le> d \<and> d \<le> days_in_month y m
            \<and> h < 24 \<and> mi < 60
         then Inr \<lparr>year = y, month = m, day = d, hour = h, minute = mi, second = 0,
                   microsecond = 0, tzinfo = None\<rparr>
         else Inl ParserError)"

section \<open>The document store\<close>

text \<open>
  The three collections are lists of documents in insertion order. The store is taken
  at its boundary: a document is kept as it was inserted, a date is compared by its
  instant, and \<^verbatim>\<open>_id\<close> values are handed out by a counter. An \<^verbatim>\<open>ObjectId\<close> is the
  number its 24 hexadecimal digits denote.
\<close>

type_synonym oid = nat

definition str_oid :: "oid \<Rightarrow> string" where
  "str_oid i = to_hex 24 i"

text \<open>\<^verbatim>\<open>ObjectId(s)\<close> for a string: 24 hexadecimal digits, or \<^verbatim>\<open>InvalidId\<close>.\<close>

definition ObjectId :: "string \<Rightarrow> py_exc + oid" where
  "ObjectId s =
     (if length s = 24 then (case from_hex 0 s of None \<Rightarrow> Inl InvalidId | Some i \<Rightarrow> Inr i)
      else Inl InvalidId)"

record user_doc =
  u_oid :: oid
  u_user_id :: string
  u_username :: "string option"
  u_first_name :: string
  u_last_name :: "string option"
  u_created_at :: datetime

record category_doc =
  c_oid :: oid
  c_user_id :: string
  c_name :: string
  c_created_at :: "datetime option"

record event_doc =
  e_oid :: oid
  e_user_id :: string
  e_title :: string
  e_description :: string
  e_date_time :: datetime
  e_category_id :: oid
  e_created_at :: datetime
  e_notified :: bool

record db =
  users :: "user_doc list"
  categories :: "category_doc list"
  events :: "event_doc list"
  next_oid :: oid

text \<open>
  \<^verbatim>\<open>update_one(filter, update)\<close> changes the first document the filter matches and
  reports how many it matched; with \<^verbatim>\<open>upsert=True\<close> it inserts a document when none
  matches.
\<close>

fun update_one :: "('a \<Rightarrow> bool) \<Rightarrow> ('a \<Rightarrow> 'a) \<Rightarrow> 'a list \<Rightarrow> 'a list \<times> nat" where
  "update_one flt upd [] = ([], 0)"
| "update_one flt upd (x # xs) =
     (if flt x then (upd x # xs, 1)
      else (case update_one flt upd xs of (ys, n) \<Rightarrow> (x # ys, n)))"

definition upsert_one :: "('a \<Rightarrow> bool) \<Rightarrow> ('a \<Rightarrow> 'a) \<Rightarrow> 'a \<Rightarrow> 'a list \<Rightarrow> 'a list \<times> nat" where
  "upsert_one flt upd fresh xs =
     (case update_one flt upd xs of
        (ys, n) \<Rightarrow> if n = 0 then (xs @ [fresh], 0) else (ys, n))"

definition find_one :: "('a \<Rightarrow> bool) \<Rightarrow> 'a list \<Rightarrow> 'a option" where
  "find_one flt xs = List.find flt xs"

section \<open>Telegram updates, replies and the conversation context\<close>

record tg_user =
  tg_id :: int
  tg_username :: "string option"
  tg_first_name :: string
  tg_last_name :: "string option"

record message =
  msg_text :: "string option"
  msg_from_user :: "tg_user option"

record callback_query =
  cb_data :: "string option"
  cb_from_user :: "tg_user option"
  cb_has_message :: bool

datatype markup = NoMarkup | MainMenu | KeyboardRemove | Inline "(string \<times> string) list"

datatype reply = Answer string markup | CallbackAnswer "string option"

datatype form_state = FormTitle | FormDescription | FormDateTime | FormCategory | AddCategory

text \<open>
  The \<^verbatim>\<open>FSMContext\<close> of one user: the state (\<open>None\<close> when idle) and the data
  dictionary, whose keys are \<^verbatim>\<open>title\<close>, \<^verbatim>\<open>description\<close> and \<^verbatim>\<open>date_time\<close>.
\<close>

record fsm =
  fsm_state :: "form_state option"
  data_title :: "string option"
  data_description :: "string option"
  data_date_time :: "datetime option"

definition fsm_clear :: "fsm \<Rightarrow> fsm" where
  "fsm_clear ctx = \<lparr>fsm_state = None, data_title = None, data_description = None,
                     data_date_time = None\<rparr>"

datatype log_entry =
    FailedToSend string py_exc | ErrorCreatingEvent py_exc | ErrorAddingCategory py_exc

record outcome =
  o_fsm :: fsm
  o_db :: db
  o_replies :: "reply list"
  o_log :: "log_entry list"
  o_raised :: "py_exc option"

definition replied :: "fsm \<Rightarrow> db \<Rightarrow> reply list \<Rightarrow> outcome" where
  "replied ctx d rs = \<lparr>o_fsm = ctx, o_db = d, o_replies = rs, o_log = [], o_raised = None\<rparr>"

definition raised :: "fsm \<Rightarrow> db \<Rightarrow> py_exc \<Rightarrow> outcome" where
  "raised ctx d e = \<lparr>o_fsm = ctx, o_db = d, o_replies = [], o_log = [], o_raised = Some e\<rparr>"

text \<open>The emoji of the bot's texts, in UTF-8.\<close>

definition emoji_calendar :: string where
  "emoji_calendar = [CHR 0xF0, CHR 0x9F, CHR 0x93, CHR 0x85]"

definition emoji_bell :: string where
  "emoji_bell = [CHR 0xF0, CHR 0x9F, CHR 0x94, CHR 0x94]"

definition emoji_plus :: string where
  "emoji_plus = [CHR 0xE2, CHR 0x9E, CHR 0x95]"

definition newline :: string where
  "newline = [CHR 0x0A]"

section \<open>Database operations of the bot\<close>

definition get_category_keyboard :: "string \<Rightarrow> db \<Rightarrow> markup" where
  "get_category_keyboard user_id d =
     Inline (map (\<lambda>cat. (c_name cat, ''cat_'' @ str_oid (c_oid cat)))
               (filter (\<lambda>cat. c_user_id cat = user_id) (categories d))
             @ [(emoji_plus @ '' Add Category'', ''add_category'')])"

definition default_categories :: "string list" where
  "default_categories = [''Work'', ''Personal'', ''Health'', ''Other'']"

text \<open>One turn of the loop over the default categories: an upsert keyed by owner and name.\<close>

definition ensure_category :: "string \<Rightarrow> db \<Rightarrow> string \<Rightarrow> db" where
  "ensure_category user_id d cat =
     (case upsert_one (\<lambda>c. c_user_id c = user_id \<and> c_name c = cat) (\<lambda>c. c\<lparr>c_name := cat\<rparr>)
             \<lparr>c_oid = next_oid d, c_user_id = user_id, c_name = cat, c_created_at = None\<rparr>
             (categories d) of
        (cs, n) \<Rightarrow> d\<lparr>categories := cs, next_oid := (if n = 0 then Suc (next_oid d) else next_oid d)\<rparr>)"

definition register_user :: "datetime \<Rightarrow> tg_user \<Rightarrow> db \<Rightarrow> db" where
  "register_user clock user d =
     (let uid = str_int (tg_id user);
          (us, n) = upsert_one (\<lambda>u. u_user_id u = uid)
             (\<lambda>u. u\<lparr>u_username := tg_username user, u_first_name := tg_first_name user,
                     u_last_name := tg_last_name user, u_created_at := now_utc clock\<rparr>)
             \<lparr>u_oid = next_oid d, u_user_id = uid, u_username = tg_username user,
              u_first_name = tg_first_name user, u_last_name = tg_last_name user,
              u_created_at = now_utc clock\<rparr>
             (users d);
          d1 = d\<lparr>users := us, next_oid := (if n = 0 then Suc (next_oid d) else next_oid d)\<rparr>
      in foldl (ensure_category uid) d1 default_categories)"

text \<open>
  \<^verbatim>\<open>create_event\<close>: \<^verbatim>\<open>ObjectId(category_id)\<close> may raise, and so may the insert
  (\<open>insert_fails\<close> says whether the store refuses it).
\<close>

definition create_event ::
  "bool \<Rightarrow> datetime \<Rightarrow> string \<Rightarrow> string \<Rightarrow> string \<Rightarrow> datetime \<Rightarrow> string \<Rightarrow> db \<Rightarrow> py_exc + (oid \<times> db)"
where
  "create_event insert_fails clock user_id title description date_time category_id d =
     (case ObjectId category_id of
        Inl e \<Rightarrow> Inl e
      | Inr cid \<Rightarrow>
          if insert_fails then Inl PyMongoError
          else Inr (next_oid d,
                 d\<lparr>events := events d @
                      [\<lparr>e_oid = next_oid d, e_user_id = user_id, e_title = title,
                        e_description = description, e_date_time = date_time,
                        e_category_id = cid, e_created_at = now_utc clock,
                        e_notified = False\<rparr>],
                    next_oid := Suc (next_oid d)\<rparr>))"

definition get_upcoming_events :: "datetime \<Rightarrow> string \<Rightarrow> db \<Rightarrow> event_doc list" where
  "get_upcoming_events clock user_id d =
     sort_key (\<lambda>e. utc_micros (e_date_time e))
       (filter (\<lambda>e. e_user_id e = user_id
                   \<and> utc_micros (now_utc clock) \<le> utc_micros (e_date_time e)
                   \<and> e_notified e = False)
          (events d))"

section \<open>The conversation handlers\<close>

text \<open>
  \<^verbatim>\<open>process_date_time\<close>, the handler of state \<^verbatim>\<open>CreateEventForm.date_time\<close>. The
  \<^verbatim>\<open>try\<close> block holds the parse, the comparison with the clock and all that follows;
  its only handler is \<^verbatim>\<open>except ValueError\<close>, so any other exception leaves the
  handler.
\<close>

definition invalid_format_text :: string where
  "invalid_format_text = ''Invalid date format. Use YYYY-MM-DD HH:MM (e.g., 2025-06-15 14:30):''"

definition except_ValueError :: "fsm \<Rightarrow> db \<Rightarrow> py_exc \<Rightarrow> outcome" where
  "except_ValueError ctx d e =
     (if isinstance_ValueError e then replied ctx d [Answer invalid_format_text NoMarkup]
      else raised ctx d e)"

definition process_date_time ::
  "(string \<Rightarrow> py_exc + datetime) \<Rightarrow> datetime \<Rightarrow> message \<Rightarrow> fsm \<Rightarrow> db \<Rightarrow> outcome"
where
  "process_date_time parse_date clock msg ctx d =
     (case msg_text msg of
        None \<Rightarrow> replied ctx d
          [Answer ''Date and time cannot be empty. Use YYYY-MM-DD HH:MM (e.g., 2025-06-15 14:30):'' NoMarkup]
      | Some txt \<Rightarrow>
          if txt = [] then replied ctx d
            [Answer ''Date and time cannot be empty. Use YYYY-MM-DD HH:MM (e.g., 2025-06-15 14:30):'' NoMarkup]
          else (case parse_date txt of
             Inl e \<Rightarrow> except_ValueError ctx d e
           | Inr date_time \<Rightarrow>
               (case dt_lt date_time (now_utc clock) of
                  Inl e \<Rightarrow> except_ValueError ctx d e
                | Inr past \<Rightarrow>
                    if past then replied ctx d [Answer ''Please enter a future date and time:'' NoMarkup]
                    else (case msg_from_user msg of
                       None \<Rightarrow> replied (fsm_clear ctx) d
                         [Answer ''Error: User information not available.'' NoMarkup]
                     | Some user \<Rightarrow>
                         replied (ctx\<lparr>data_date_time := Some date_time, fsm_state := Some FormCategory\<rparr>) d
                           [Answer ''Select a category:''
                              (get_category_keyboard (str_int (tg_id user)) d)]))))"

text \<open>
  \<^verbatim>\<open>process_category\<close>, the handler of a button press in state
  \<^verbatim>\<open>CreateEventForm.category\<close>. It is registered for callback data that starts with
  \<^verbatim>\<open>cat_\<close>; the category id is the piece of the data after the first underscore.
\<close>

definition process_category_filter :: "callback_query \<Rightarrow> fsm \<Rightarrow> bool" where
  "process_category_filter cb ctx =
     ((case cb_data cb of None \<Rightarrow> False | Some dat \<Rightarrow> dat \<noteq> [] \<and> startswith dat ''cat_'')
      \<and> fsm_state ctx = Some FormCategory)"

definition bind_exc :: "py_exc + 'a \<Rightarrow> ('a \<Rightarrow> py_exc + 'b) \<Rightarrow> py_exc + 'b" where
  "bind_exc r f = (case r of Inl e \<Rightarrow> Inl e | Inr x \<Rightarrow> f x)"

text \<open>\<^verbatim>\<open>data[key]\<close> on the context's dictionary: a missing key raises.\<close>

definition data_get :: "'a option \<Rightarrow> py_exc + 'a" where
  "data_get v = (case v of None \<Rightarrow> Inl KeyError | Some x \<Rightarrow> Inr x)"

definition apostrophe :: string where
  "apostrophe = [CHR 0x27]"

definition process_category :: "bool \<Rightarrow> datetime \<Rightarrow> callback_query \<Rightarrow> fsm \<Rightarrow> db \<Rightarrow> outcome" where
  "process_category insert_fails clock cb ctx d =
     (case cb_data cb of
        None \<Rightarrow> replied ctx d [CallbackAnswer (Some ''Error: Invalid callback data.'')]
      | Some dat \<Rightarrow>
         (case cb_from_user cb of
            None \<Rightarrow> replied ctx d [CallbackAnswer (Some ''Error: Invalid callback data.'')]
          | Some user \<Rightarrow>
             if dat = [] \<or> \<not> cb_has_message cb
             then replied ctx d [CallbackAnswer (Some ''Error: Invalid callback data.'')]
             else (case py_index (split_on CHR ''_'' dat) 1 of
                Inl e \<Rightarrow> raised ctx d e
              | Inr category_id \<Rightarrow>
                 (case bind_exc (data_get (data_title ctx)) (\<lambda>title.
                       bind_exc (data_get (data_description ctx)) (\<lambda>description.
                       bind_exc (data_get (data_date_time ctx)) (\<lambda>date_time.
                       bind_exc (create_event insert_fails clock (str_int (tg_id user)) title
                                   description date_time category_id d) (\<lambda>(event_id, d').
                       Inr (title, d'))))) of
                    Inr (title, d') \<Rightarrow>
                      \<lparr>o_fsm = fsm_clear ctx, o_db = d',
                       o_replies = [Answer (''Event '' @ apostrophe @ title @ apostrophe
                           @ '' created successfully! You'' @ apostrophe
                           @ ''ll be reminded at the set time.'') MainMenu,
                         CallbackAnswer None],
                       o_log = [], o_raised = None\<rparr>
                  | Inl e \<Rightarrow>
                      \<lparr>o_fsm = fsm_clear ctx, o_db = d,
                       o_replies = [Answer ''Failed to create event. Please try again.'' MainMenu,
                         CallbackAnswer None],
                       o_log = [ErrorCreatingEvent e], o_raised = None\<rparr>))))"

text \<open>The add-category flow: \<^verbatim>\<open>add_category_start\<close> and \<^verbatim>\<open>process_category_name\<close>.\<close>

definition add_category_start :: "callback_query \<Rightarrow> fsm \<Rightarrow> db \<Rightarrow> outcome" where
  "add_category_start cb ctx d =
     (if \<not> cb_has_message cb
      then replied ctx d [CallbackAnswer (Some ''Error: Message not available.'')]
      else replied (ctx\<lparr>fsm_state := Some AddCategory\<rparr>) d
             [Answer ''Enter the new category name:'' NoMarkup, CallbackAnswer None])"



text \<open>
  \<^verbatim>\<open>upcoming_events\<close>, the listing. The loop appends one entry to \<^verbatim>\<open>response\<close> for
  each event whose category is found.
\<close>

definition render_event :: "event_doc \<Rightarrow> category_doc \<Rightarrow> string" where
  "render_event ev cat =
     emoji_calendar @ '' *'' @ e_title ev @ ''*'' @ newline
     @ ''Category: '' @ c_name cat @ newline
     @ ''Time: '' @ strftime_ymd_hm (e_date_time ev) @ newline
     @ ''Description: '' @ e_description ev @ newline @ newline"

fun render_events :: "db \<Rightarrow> string \<Rightarrow> event_doc list \<Rightarrow> string" where
  "render_events d response [] = response"
| "render_events d response (ev # evs) =
     (case find_one (\<lambda>c. c_oid c = e_category_id ev) (categories d) of
        None \<Rightarrow> render_events d response evs
      | Some cat \<Rightarrow> render_events d (response @ render_event ev cat) evs)"

definition upcoming_header :: string where
  "upcoming_header = ''Upcoming Events:'' @ newline @ newline"

definition upcoming_events :: "datetime \<Rightarrow> message \<Rightarrow> fsm \<Rightarrow> db \<Rightarrow> outcome" where
  "upcoming_events clock msg ctx d =
     (case msg_from_user msg of
        None \<Rightarrow> replied (fsm_clear ctx) d [Answer ''Error: User information not available.'' NoMarkup]
      | Some user \<Rightarrow>
          let evs = get_upcoming_events clock (str_int (tg_id user)) d in
          if evs = []
          then replied (fsm_clear ctx) d
                 [Answer (''No upcoming events. Create one with '' @ apostrophe @ ''Create Event''
                          @ apostrophe @ ''!'') MainMenu]
          else replied (fsm_clear ctx) d [Answer (render_events d upcoming_header evs) MainMenu])"

section \<open>Statistics\<close>

record statistics =
  events_this_month :: nat
  most_used_category :: string
  most_used_count :: nat

definition start_of_month :: "datetime \<Rightarrow> datetime" where
  "start_of_month t = t\<lparr>day := 1, hour := 0, minute := 0, second := 0, microsecond := 0\<rparr>"

definition count_documents :: "('a \<Rightarrow> bool) \<Rightarrow> 'a list \<Rightarrow> nat" where
  "count_documents flt xs = length (filter flt xs)"

text \<open>
  The aggregation pipeline, stage by stage. \<^verbatim>\<open>$group\<close> yields one pair of a category
  id and its count per distinct id; \<^verbatim>\<open>$sort\<close> orders by descending count (the store
  promises no order among equal counts: the model keeps the groups' order);
  \<^verbatim>\<open>$limit\<close> keeps the first; \<^verbatim>\<open>$lookup\<close> attaches the categories with that
  \<^verbatim>\<open>_id\<close>; \<^verbatim>\<open>$unwind\<close> yields one result per attached category, none when there
  is none.
\<close>

definition stage_group :: "event_doc list \<Rightarrow> (oid \<times> nat) list" where
  "stage_group evs =
     map (\<lambda>cid. (cid, count_documents (\<lambda>e. e_category_id e = cid) evs))
       (remdups (map e_category_id evs))"

definition stage_sort :: "(oid \<times> nat) list \<Rightarrow> (oid \<times> nat) list" where
  "stage_sort gs = sort_key (\<lambda>g. - int (snd g)) gs"

definition stage_lookup_unwind :: "db \<Rightarrow> (oid \<times> nat) list \<Rightarrow> (oid \<times> nat \<times> category_doc) list" where
  "stage_lookup_unwind d gs =
     concat (map (\<lambda>(cid, n). map (\<lambda>c. (cid, n, c)) (filter (\<lambda>c. c_oid c = cid) (categories d))) gs)"

definition most_used_pipeline :: "string \<Rightarrow> db \<Rightarrow> (oid \<times> nat \<times> category_doc) list" where
  "most_used_pipeline user_id d =
     stage_lookup_unwind d
       (take 1 (stage_sort (stage_group (filter (\<lambda>e. e_user_id e = user_id) (events d)))))"

definition get_statistics :: "datetime \<Rightarrow> string \<Rightarrow> db \<Rightarrow> statistics" where
  "get_statistics clock user_id d =
     (let now = now_utc clock;
          most_used = most_used_pipeline user_id d
      in \<lparr>events_this_month =
            count_documents (\<lambda>e. e_user_id e = user_id
                \<and> utc_micros (start_of_month now) \<le> utc_micros (e_created_at e)) (events d),
          most_used_category = (case most_used of [] \<Rightarrow> ''None'' | (cid, n, c) # rest \<Rightarrow> c_name c),
          most_used_count = (case most_used of [] \<Rightarrow> 0 | (cid, n, c) # rest \<Rightarrow> n)\<rparr>)"

section \<open>The reminder task\<close>

text \<open>
  What the outside world does during one cycle: whether the candidate query, the
  category lookup for an event, the delivery of its reminder and the write of its
  \<^verbatim>\<open>notified\<close> flag raise.
\<close>

record faults =
  query_raises :: bool
  lookup_raises :: "event_doc \<Rightarrow> bool"
  send_raises :: "event_doc \<Rightarrow> bool"
  update_raises :: "event_doc \<Rightarrow> bool"

record scan =
  s_db :: db
  s_sent :: "(string \<times> string) list"
  s_log :: "log_entry list"

definition reminder_text :: "event_doc \<Rightarrow> category_doc \<Rightarrow> string" where
  "reminder_text ev cat =
     emoji_bell @ '' Reminder: *'' @ e_title ev @ ''*'' @ newline
     @ ''Category: '' @ c_name cat @ newline
     @ ''Description: '' @ e_description ev @ newline
     @ ''Time: '' @ strftime_ymd_hm (e_date_time ev)"

definition due_events :: "datetime \<Rightarrow> db \<Rightarrow> event_doc list" where
  "due_events clock d =
     filter (\<lambda>e. utc_micros (e_date_time e) \<le> utc_micros (now_utc clock) + 5 * 60 * 1000000
                 \<and> e_notified e = False)
       (events d)"

text \<open>The write of the flag: \<^verbatim>\<open>update_one({"_id": id}, {"$set": {"notified": True}})\<close>.\<close>

definition mark_notified :: "oid \<Rightarrow> db \<Rightarrow> db \<times> nat" where
  "mark_notified eid d =
     (case update_one (\<lambda>e. e_oid e = eid) (\<lambda>e. e\<lparr>e_notified := True\<rparr>) (events d) of
        (es, n) \<Rightarrow> (d\<lparr>events := es\<rparr>, n))"

text \<open>
  The body of the \<^verbatim>\<open>for\<close> loop for one event. The category lookup stands before the
  \<^verbatim>\<open>try\<close>; the delivery and the write stand inside it.
\<close>

definition process_candidate :: "faults \<Rightarrow> event_doc \<Rightarrow> scan \<Rightarrow> py_exc + scan" where
  "process_candidate f ev s =
     (if lookup_raises f ev then Inl PyMongoError
      else (case find_one (\<lambda>c. c_oid c = e_category_id ev) (categories (s_db s)) of
         None \<Rightarrow> Inr s
       | Some cat \<Rightarrow>
           if send_raises f ev
           then Inr (s\<lparr>s_log := s_log s @ [FailedToSend (e_user_id ev) TelegramError]\<rparr>)
           else let s1 = s\<lparr>s_sent := s_sent s @ [(e_user_id ev, reminder_text ev cat)]\<rparr> in
             if update_raises f ev
             then Inr (s1\<lparr>s_log := s_log s1 @ [FailedToSend (e_user_id ev) PyMongoError]\<rparr>)
             else Inr (s1\<lparr>s_db := fst (mark_notified (e_oid ev) (s_db s1))\<rparr>)))"

fun for_candidates :: "faults \<Rightarrow> event_doc list \<Rightarrow> scan \<Rightarrow> py_exc + scan" where
  "for_candidates f [] s = Inr s"
| "for_candidates f (ev # evs) s =
     (case process_candidate f ev s of
        Inl e \<Rightarrow> Inl e
      | Inr s' \<Rightarrow> for_candidates f evs s')"

definition reminder_cycle :: "faults \<Rightarrow> datetime \<Rightarrow> scan \<Rightarrow> py_exc + scan" where
  "reminder_cycle f clock s =
     (if query_raises f then Inl PyMongoError
      else for_candidates f (due_events clock (s_db s)) s)"

text \<open>
  \<^verbatim>\<open>reminder_task\<close> is \<^verbatim>\<open>while True\<close> around the cycle: it never returns, and it ends
  only when an exception leaves a cycle. It is run here over the cycles the environment
  gives it, one pair of faults and clock reading per cycle: \<open>Inl e\<close> is the exception
  that ended the task, \<open>Inr s\<close> the state of a task that is still running after them.
\<close>

fun reminder_task :: "(faults \<times> datetime) list \<Rightarrow> scan \<Rightarrow> py_exc + scan" where
  "reminder_task [] s = Inr s"
| "reminder_task ((f, clock) # cycles) s =
     (case reminder_cycle f clock s of
        Inl e \<Rightarrow> Inl e
      | Inr s' \<Rightarrow> reminder_task cycles s')"

section \<open>Concrete values for the evaluations\<close>

definition example_clock :: datetime where
  "example_clock = \<lparr>year = 2025, month = 6, day = 1, hour = 12, minute = 0, second = 0,
                      microsecond = 0, tzinfo = None\<rparr>"

definition example_user :: tg_user where
  "example_user = \<lparr>tg_id = 42, tg_username = Some ''alice'', tg_first_name = ''Alice'',
                     tg_last_name = None\<rparr>"

definition empty_db :: db where
  "empty_db = \<lparr>users = [], categories = [], events = [], next_oid = 1\<rparr>"

definition example_draft :: fsm where
  "example_draft = \<lparr>fsm_state = Some FormDateTime, data_title = Some ''Team Sync'',
                      data_description = Some ''Weekly'', data_date_time = None\<rparr>"

definition example_category :: category_doc where
  "example_category = \<lparr>c_oid = 1, c_user_id = ''42'', c_name = ''Work'', c_created_at = None\<rparr>"

definition example_event :: "oid \<Rightarrow> string \<Rightarrow> event_doc" where
  "example_event i title =
     \<lparr>e_oid = i, e_user_id = ''42'', e_title = title, e_description = ''Weekly'',
      e_date_time = \<lparr>year = 2025, month = 6, day = 1, hour = 12, minute = 3, second = 0,
                      microsecond = 0, tzinfo = Some 0\<rparr>,
      e_category_id = 1, e_created_at = now_utc example_clock, e_notified = False\<rparr>"

definition example_db :: db where
  "example_db = \<lparr>users = [], categories = [example_category],
                   events = [example_event 2 ''Team Sync'', example_event 3 ''Review''],
                   next_oid = 4\<rparr>"

definition example_scan :: scan where
  "example_scan = \<lparr>s_db = example_db, s_sent = [], s_log = []\<rparr>"

definition no_faults :: faults where
  "no_faults = \<lparr>query_raises = False, lookup_raises = (\<lambda>e. False), send_raises = (\<lambda>e. False),
                  update_raises = (\<lambda>e. False)\<rparr>"

definition lookup_fault :: faults where
  "lookup_fault = no_faults\<lparr>lookup_raises := (\<lambda>e. e_oid e = 2)\<rparr>"


definition one_event_scan :: scan where
  "one_event_scan = \<lparr>s_db = example_db\<lparr>events := [example_event 2 ''Team Sync'']\<rparr>,
                       s_sent = [], s_log = []\<rparr>"


definition category_ctx :: fsm where
  "category_ctx = \<lparr>fsm_state = Some FormCategory, data_title = Some ''Team Sync'',
                     data_description = Some ''Weekly'',
                     data_date_time = Some \<lparr>year = 2099, month = 1, day = 1, hour = 10,
                        minute = 0, second = 0, microsecond = 0, tzinfo = Some 0\<rparr>\<rparr>"

definition forged_press :: callback_query where
  "forged_press = \<lparr>cb_data = Some ''cat_0123456789abcdef01234567'',
                     cb_from_user = Some example_user, cb_has_message = True\<rparr>"

definition keyboard_press :: callback_query where
  "keyboard_press = \<lparr>cb_data = Some (''cat_'' @ str_oid 1),
                       cb_from_user = Some example_user, cb_has_message = True\<rparr>"

definition dangling_db :: db where
  "dangling_db = example_db\<lparr>events := [example_event 2 ''Team Sync'',
                                         (example_event 3 ''Review'')\<lparr>e_category_id := 9\<rparr>]\<rparr>"

definition orphan_db :: db where
  "orphan_db = example_db\<lparr>events := [(example_event 3 ''Review'')\<lparr>e_category_id := 9\<rparr>]\<rparr>"


section \<open>The date-time step of the conversation\<close>

lemma parse_ymd_hm_example:
  "parse_ymd_hm ''2025-06-15 14:30'' =
     Inr \<lparr>year = 2025, month = 6, day = 15, hour = 14, minute = 30, second = 0,
          microsecond = 0, tzinfo = None\<rparr>"
  by (simp add: parse_ymd_hm_def int_of_digits_def digit_val_def is_digit_def
      days_in_month_def Let_def)

lemma dt_lt_naive_aware: "tzinfo t = None \<Longrightarrow> dt_lt t (now_utc clock) = Inl TypeError"
  by (simp add: dt_lt_def now_utc_def)

lemma lex_less_irrefl: "\<not> lex_less xs xs"
  by (induction xs) auto

text \<open>What the handler does on the inputs it handles as the conversation intends.\<close>

lemma process_date_time_empty:
  "msg_text msg = None \<or> msg_text msg = Some [] \<Longrightarrow>
   o_fsm (process_date_time parse_date clock msg ctx d) = ctx \<and>
   o_raised (process_date_time parse_date clock msg ctx d) = None \<and>
   o_replies (process_date_time parse_date clock msg ctx d) \<noteq> []"
  by (auto simp: process_date_time_def replied_def)

lemma process_date_time_unparsable:
  "msg_text msg = Some txt \<Longrightarrow> txt \<noteq> [] \<Longrightarrow> parse_date txt = Inl e \<Longrightarrow>
   isinstance_ValueError e \<Longrightarrow>
   process_date_time parse_date clock msg ctx d =
     replied ctx d [Answer invalid_format_text NoMarkup]"
  by (auto simp: process_date_time_def except_ValueError_def)

lemma process_date_time_aware:
  "msg_text msg = Some txt \<Longrightarrow> txt \<noteq> [] \<Longrightarrow> parse_date txt = Inr t \<Longrightarrow>
   msg_from_user msg = Some user \<Longrightarrow> dt_lt t (now_utc clock) = Inr past \<Longrightarrow>
   process_date_time parse_date clock msg ctx d =
     (if past then replied ctx d [Answer ''Please enter a future date and time:'' NoMarkup]
      else replied (ctx\<lparr>data_date_time := Some t, fsm_state := Some FormCategory\<rparr>) d
             [Answer ''Select a category:'' (get_category_keyboard (str_int (tg_id user)) d)])"
  by (auto simp: process_date_time_def)

text \<open>A date-time equal to the clock's reading is not in the past for \<^verbatim>\<open><\<close>: it is accepted.\<close>

lemma process_date_time_at_now_accepted:
  assumes "txt \<noteq> []" and "parse_date txt = Inr (now_utc clock)"
  shows "o_fsm (process_date_time parse_date clock
                 \<lparr>msg_text = Some txt, msg_from_user = Some user\<rparr> ctx d)
           = ctx\<lparr>data_date_time := Some (now_utc clock), fsm_state := Some FormCategory\<rparr>"
  using assms by (simp add: process_date_time_def dt_lt_def replied_def lex_less_irrefl)

text \<open>
  Claim C1. In state AwaitingDateTime an empty or unparsable text re-prompts and the
  conversation stays in the state; a text that parses to a moment that is not later than
  now re-prompts and stays as well; a text that parses to a future moment advances to
  AwaitingCategory; and no input to the step surfaces as a crash.

  The code does not do this for a text that parses to a date-time with no time zone,
  which is what the parser returns for the form \<^verbatim>\<open>YYYY-MM-DD HH:MM\<close> the bot itself
  asks for. The comparison \<^verbatim>\<open>date_time < datetime.now(pytz.UTC)\<close> of a naive with an
  aware datetime raises \<^verbatim>\<open>TypeError\<close>, which \<^verbatim>\<open>except ValueError\<close> does not catch:
  the handler sends nothing, the state stays as it was and the exception leaves the
  handler, whether the date is past or future.
\<close>

theorem process_date_time_naive_raises:
  assumes "txt \<noteq> []" and "parse_date txt = Inr t" and "tzinfo t = None"
  shows "process_date_time parse_date clock \<lparr>msg_text = Some txt, msg_from_user = who\<rparr> ctx d
           = raised ctx d TypeError"
  using assms
  by (simp add: process_date_time_def dt_lt_naive_aware except_ValueError_def
      isinstance_ValueError_def)

theorem process_date_time_naive_raises_witness:
  "process_date_time parse_ymd_hm example_clock
     \<lparr>msg_text = Some ''2025-06-15 14:30'', msg_from_user = Some example_user\<rparr>
     example_draft empty_db
   = \<lparr>o_fsm = example_draft, o_db = empty_db, o_replies = [], o_log = [],
      o_raised = Some TypeError\<rparr>"
  using process_date_time_naive_raises [of "''2025-06-15 14:30''" parse_ymd_hm _ example_clock
      "Some example_user" example_draft empty_db]
  by (simp add: parse_ymd_hm_example raised_def)

section \<open>The store's update and lookup by \<^verbatim>\<open>_id\<close>\<close>

lemma update_one_ids:
  assumes "\<And>x. key (upd x) = key x"
  shows "map key (fst (update_one flt upd xs)) = map key xs"
  using assms by (induction xs) (auto split: prod.splits)

lemma find_update_one_other:
  assumes "\<And>x. key (upd x) = key x" and "i \<noteq> j"
  shows "List.find (\<lambda>x. key x = i) (fst (update_one (\<lambda>x. key x = j) upd xs))
           = List.find (\<lambda>x. key x = i) xs"
  using assms by (induction xs) (auto split: prod.splits)

lemma find_update_one_same:
  assumes "\<And>x. key (upd x) = key x"
  shows "List.find (\<lambda>x. key x = j) (fst (update_one (\<lambda>x. key x = j) upd xs))
           = map_option upd (List.find (\<lambda>x. key x = j) xs)"
  using assms by (induction xs) (auto split: prod.splits)

lemma update_one_matched:
  "snd (update_one flt upd xs) = (if \<exists>x \<in> set xs. flt x then 1 else 0)"
  by (induction xs) (auto split: prod.splits)

lemma find_by_id_distinct:
  "distinct (map key xs) \<Longrightarrow> x \<in> set xs \<Longrightarrow> List.find (\<lambda>y. key y = key x) xs = Some x"
  by (induction xs) (auto simp: rev_image_eqI)

lemma mark_notified_events:
  "events (fst (mark_notified i d)) = fst (update_one (\<lambda>e. e_oid e = i) (\<lambda>e. e\<lparr>e_notified := True\<rparr>) (events d))"
  "categories (fst (mark_notified i d)) = categories d"
  "users (fst (mark_notified i d)) = users d"
  by (auto simp: mark_notified_def split: prod.splits)

section \<open>Faults and outcomes in the reminder task\<close>

lemma due_example: "due_events example_clock example_db = [example_event 2 ''Team Sync'', example_event 3 ''Review'']"
  by code_simp

lemma process_candidate_Inl:
  "process_candidate f ev s = Inl e \<longleftrightarrow> (lookup_raises f ev \<and> e = PyMongoError)"
  by (auto simp: process_candidate_def Let_def split: option.splits)

lemma for_candidates_Inl_iff:
  "(for_candidates f evs s = Inl e) \<longleftrightarrow> ((\<exists>ev \<in> set evs. lookup_raises f ev) \<and> e = PyMongoError)"
proof (induction evs arbitrary: s)
  case Nil
  then show ?case by simp
next
  case (Cons a evs)
  show ?case
  proof (cases "process_candidate f a s")
    case (Inl e')
    then show ?thesis using process_candidate_Inl [of f a s e'] by auto
  next
    case (Inr s')
    then have "\<not> lookup_raises f a" using process_candidate_Inl [of f a s PyMongoError] by auto
    with Cons.IH [of s'] Inr show ?thesis by simp
  qed
qed

text \<open>
  Claim C2. For every scan cycle and every error raised while one candidate event is
  processed (category lookup, delivery, persistence), the scanner loop does not end, and
  the failure of that event does not abort the processing of the remaining candidates.

  The code does this for the delivery and for the write of the flag, which stand inside
  the \<^verbatim>\<open>try\<close>: \<open>process_candidate\<close> returns \<open>Inl\<close> only when the lookup raises
  (\<open>process_candidate_Inl\<close>). The category lookup stands before the \<^verbatim>\<open>try\<close>: when it
  raises for one candidate of a cycle, the exception leaves the \<^verbatim>\<open>for\<close> loop and the
  \<^verbatim>\<open>while True\<close> loop, the remaining candidates are not processed, and the task has
  ended whatever cycles would have followed.
\<close>

theorem reminder_task_ends_on_lookup_error:
  assumes "\<not> query_raises f" and "ev \<in> set (due_events clock (s_db s))" and "lookup_raises f ev"
  shows "reminder_task ((f, clock) # cycles) s = Inl PyMongoError"
proof -
  have "for_candidates f (due_events clock (s_db s)) s = Inl PyMongoError"
    using assms(2,3) for_candidates_Inl_iff by blast
  with assms(1) show ?thesis by (simp add: reminder_cycle_def)
qed

theorem reminder_task_ends_on_lookup_error_witness:
  "reminder_task [(lookup_fault, example_clock), (no_faults, example_clock)] example_scan
     = Inl PyMongoError"
proof -
  have "\<not> query_raises lookup_fault" by (simp add: lookup_fault_def no_faults_def)
  moreover have "example_event 2 ''Team Sync'' \<in> set (due_events example_clock (s_db example_scan))"
    by (simp add: example_scan_def due_example)
  moreover have "lookup_raises lookup_fault (example_event 2 ''Team Sync'')"
    by (simp add: lookup_fault_def example_event_def)
  ultimately show ?thesis by (rule reminder_task_ends_on_lookup_error)
qed





text \<open>
  Claim C3, as amended. The claim is that the write of the flag is one atomic update
  conditional on \<^verbatim>\<open>notified\<close> being false, so that two concurrent attempts to notify
  an event cannot both deliver. The code's write is one \<^verbatim>\<open>update_one\<close> selected by the
  event's \<^verbatim>\<open>_id\<close> alone: it matches the event and sets the flag to true whatever the
  flag was, and changes nothing else. It is issued after the reminder was sent.
\<close>

theorem mark_notified_unconditional:
  assumes "distinct (map e_oid (events d))" and "ev \<in> set (events d)"
  shows "snd (mark_notified (e_oid ev) d) = 1
       \<and> find_one (\<lambda>e. e_oid e = e_oid ev) (events (fst (mark_notified (e_oid ev) d)))
           = Some (ev\<lparr>e_notified := True\<rparr>)
       \<and> (\<forall>i. i \<noteq> e_oid ev \<longrightarrow>
             find_one (\<lambda>e. e_oid e = i) (events (fst (mark_notified (e_oid ev) d)))
               = find_one (\<lambda>e. e_oid e = i) (events d))
       \<and> categories (fst (mark_notified (e_oid ev) d)) = categories d
       \<and> users (fst (mark_notified (e_oid ev) d)) = users d"
proof -
  have "snd (mark_notified (e_oid ev) d)
          = snd (update_one (\<lambda>e. e_oid e = e_oid ev) (\<lambda>e. e\<lparr>e_notified := True\<rparr>) (events d))"
    by (simp add: mark_notified_def split: prod.splits)
  with assms(2) have "snd (mark_notified (e_oid ev) d) = 1"
    by (auto simp: update_one_matched)
  moreover have "List.find (\<lambda>e. e_oid e = e_oid ev) (events d) = Some ev"
    using assms by (rule find_by_id_distinct)
  ultimately show ?thesis
    by (simp add: find_one_def mark_notified_events find_update_one_same find_update_one_other)
qed

theorem mark_notified_unconditional_witness:
  "snd (mark_notified 3 (fst (mark_notified 3 example_db))) = 1
   \<and> find_one (\<lambda>e. e_oid e = 3) (events (fst (mark_notified 3 (fst (mark_notified 3 example_db)))))
       = Some ((example_event 3 ''Review'')\<lparr>e_notified := True\<rparr>)
   \<and> find_one (\<lambda>e. e_oid e = 2) (events (fst (mark_notified 3 (fst (mark_notified 3 example_db)))))
       = Some (example_event 2 ''Team Sync'')"
proof -
  have d: "fst (mark_notified 3 example_db) = example_db\<lparr>events := [example_event 2 ''Team Sync'',
              (example_event 3 ''Review'')\<lparr>e_notified := True\<rparr>]\<rparr>"
    by (simp add: mark_notified_def example_db_def example_event_def)
  have 1: "distinct (map e_oid (events (fst (mark_notified 3 example_db))))"
    by (simp add: d example_event_def)
  have 2: "(example_event 3 ''Review'')\<lparr>e_notified := True\<rparr> \<in> set (events (fst (mark_notified 3 example_db)))"
    by (simp add: d)
  have 3: "e_oid ((example_event 3 ''Review'')\<lparr>e_notified := True\<rparr>) = 3"
    by (simp add: example_event_def)
  from mark_notified_unconditional [OF 1 2] show ?thesis
    unfolding 3 by (simp add: d find_one_def example_event_def)
qed

text \<open>
  The claim of C3 fails on the code: the write matches an event whose flag is already
  true, and two attempts that both read the candidates before either of them wrote
  both deliver the reminder.
\<close>

theorem notified_write_counterexample:
  "e_notified ((example_event 2 ''Team Sync'')\<lparr>e_notified := True\<rparr>) = True
   \<and> mark_notified 2 (example_db\<lparr>events := [(example_event 2 ''Team Sync'')\<lparr>e_notified := True\<rparr>]\<rparr>)
       = (example_db\<lparr>events := [(example_event 2 ''Team Sync'')\<lparr>e_notified := True\<rparr>]\<rparr>, 1)
   \<and> map_sum id s_sent
        (bind_exc (for_candidates no_faults (due_events example_clock (s_db one_event_scan)) one_event_scan)
           (for_candidates no_faults (due_events example_clock (s_db one_event_scan))))
       = Inr [(''42'', reminder_text (example_event 2 ''Team Sync'') example_category),
              (''42'', reminder_text (example_event 2 ''Team Sync'') example_category)]"
proof -
  have due: "due_events example_clock (s_db one_event_scan) = [example_event 2 ''Team Sync'']"
    by code_simp
  show ?thesis
    unfolding due
    by (simp add: mark_notified_def example_db_def example_event_def bind_exc_def
        process_candidate_def no_faults_def one_event_scan_def find_one_def example_category_def)
qed

section \<open>The add-category flow\<close>








section \<open>The commit of an event\<close>

lemma hex_val_hex_char: "m < 16 \<Longrightarrow> hex_val (hex_char m) = Some m"
  by (auto simp: hex_val_def hex_char_def Let_def)

lemma from_hex_append:
  "from_hex acc (xs @ ys) = (case from_hex acc xs of None \<Rightarrow> None | Some a \<Rightarrow> from_hex a ys)"
  by (induction xs arbitrary: acc) (auto split: option.splits)

lemma from_hex_to_hex: "from_hex acc (to_hex k n) = Some (acc * 16 ^ k + n mod 16 ^ k)"
proof (induction k arbitrary: n)
  case 0
  then show ?case by simp
next
  case (Suc k)
  have "(n div 16) mod 16 ^ k * 16 + n mod 16 = n mod (16 * 16 ^ k)"
    by (metis (no_types) add.commute mod_mult2_eq mult.commute)
  then show ?case
    by (simp add: from_hex_append Suc.IH hex_val_hex_char algebra_simps)
qed

lemma length_to_hex: "length (to_hex k n) = k"
  by (induction k arbitrary: n) auto

lemma ObjectId_str_oid: "i < 16 ^ 24 \<Longrightarrow> ObjectId (str_oid i) = Inr i"
  by (simp add: ObjectId_def str_oid_def length_to_hex from_hex_to_hex)

lemma hex_char_not_underscore: "m < 16 \<Longrightarrow> hex_char m \<noteq> CHR ''_''"
proof
  assume "m < 16" and "hex_char m = CHR ''_''"
  then have "hex_val CHR ''_'' = Some m" using hex_val_hex_char by metis
  then show False by (simp add: hex_val_def)
qed

lemma underscore_notin_to_hex: "CHR ''_'' \<notin> set (to_hex k n)"
  by (induction k arbitrary: n) (auto simp: hex_char_not_underscore [symmetric])

lemma split_on_absent: "sep \<notin> set s \<Longrightarrow> split_on sep s = [s]"
  by (induction s) auto

lemma split_cat_oid: "split_on CHR ''_'' (''cat_'' @ str_oid i) = [''cat'', str_oid i]"
  by (simp add: split_on_absent underscore_notin_to_hex str_oid_def)

lemma category_button_segment:
  "py_index (split_on CHR ''_'' (''cat_'' @ str_oid i)) 1 = Inr (str_oid i)"
  unfolding split_cat_oid by (simp add: py_index_def)

lemma underscore_notin_str_oid: "CHR ''_'' \<notin> set (str_oid i)"
  by (simp add: str_oid_def underscore_notin_to_hex)

lemma hex_val_digits:
  "hex_val CHR ''0'' = Some 0" "hex_val CHR ''1'' = Some 1" "hex_val CHR ''2'' = Some 2"
  "hex_val CHR ''3'' = Some 3" "hex_val CHR ''4'' = Some 4" "hex_val CHR ''5'' = Some 5"
  "hex_val CHR ''6'' = Some 6" "hex_val CHR ''7'' = Some 7" "hex_val CHR ''8'' = Some 8"
  "hex_val CHR ''9'' = Some 9" "hex_val CHR ''a'' = Some 10" "hex_val CHR ''b'' = Some 11"
  "hex_val CHR ''c'' = Some 12" "hex_val CHR ''d'' = Some 13" "hex_val CHR ''e'' = Some 14"
  "hex_val CHR ''f'' = Some 15"
  by (simp_all add: hex_val_def)

lemma forged_oid: "ObjectId ''0123456789abcdef01234567'' = Inr 0x0123456789abcdef01234567"
  by (simp add: ObjectId_def hex_val_digits)

lemma keyboard_press_changes:
  "events (o_db (process_category False example_clock keyboard_press category_ctx example_db))
     \<noteq> events example_db"
  by (simp add: process_category_def keyboard_press_def category_ctx_def split_on_absent
      underscore_notin_str_oid py_index_def ObjectId_str_oid bind_exc_def data_get_def
      create_event_def)

text \<open>
  Claim C6, as amended. The claim is that every event the conversation commits references
  a category that existed when the event was created, the commit being triggered only by
  the selection of an existing category id. The handler does not look the category up:
  the event it commits references the \<^verbatim>\<open>ObjectId\<close> written in the callback data
  between the first underscore and the next, whatever it is, as long as it is well
  formed. That id denotes an existing category when the data is that of a category
  button of a keyboard built from the store (the categories of the store only grow).
\<close>

theorem process_category_commit:
  assumes changed: "events (o_db (process_category insert_fails clock cb ctx d)) \<noteq> events d"
  shows "\<exists>dat user seg cid title description date_time.
           cb_data cb = Some dat \<and> cb_from_user cb = Some user
         \<and> py_index (split_on CHR ''_'' dat) 1 = Inr seg \<and> ObjectId seg = Inr cid
         \<and> data_title ctx = Some title \<and> data_description ctx = Some description
         \<and> data_date_time ctx = Some date_time
         \<and> events (o_db (process_category insert_fails clock cb ctx d))
             = events d @ [\<lparr>e_oid = next_oid d, e_user_id = str_int (tg_id user),
                 e_title = title, e_description = description, e_date_time = date_time,
                 e_category_id = cid, e_created_at = now_utc clock, e_notified = False\<rparr>]
         \<and> categories (o_db (process_category insert_fails clock cb ctx d)) = categories d
         \<and> o_fsm (process_category insert_fails clock cb ctx d) = fsm_clear ctx
         \<and> (\<forall>uid d0 bs label.
               get_category_keyboard uid d0 = Inline bs \<and> (label, dat) \<in> set bs
               \<and> startswith dat ''cat_'' \<and> set (categories d0) \<subseteq> set (categories d)
               \<and> (\<forall>c \<in> set (categories d0). c_oid c < 16 ^ 24)
               \<longrightarrow> (\<exists>c \<in> set (categories d). c_oid c = cid))"
proof -
  from changed obtain dat user where dat: "cb_data cb = Some dat" and user: "cb_from_user cb = Some user"
    by (auto simp: process_category_def replied_def split: option.splits)
  from changed dat user obtain seg where seg: "py_index (split_on CHR ''_'' dat) 1 = Inr seg"
    by (auto simp: process_category_def replied_def raised_def split: if_splits sum.splits)
  from changed dat user seg obtain title description date_time cid where
    draft: "data_title ctx = Some title" "data_description ctx = Some description"
      "data_date_time ctx = Some date_time" and cid: "ObjectId seg = Inr cid"
    and nf: "\<not> insert_fails" and ok: "dat \<noteq> []" "cb_has_message cb"
    by (auto simp: process_category_def replied_def bind_exc_def data_get_def create_event_def
        split: if_splits sum.splits option.splits)
  have out: "process_category insert_fails clock cb ctx d =
      \<lparr>o_fsm = fsm_clear ctx,
       o_db = d\<lparr>events := events d @ [\<lparr>e_oid = next_oid d, e_user_id = str_int (tg_id user),
                 e_title = title, e_description = description, e_date_time = date_time,
                 e_category_id = cid, e_created_at = now_utc clock, e_notified = False\<rparr>],
               next_oid := Suc (next_oid d)\<rparr>,
       o_replies = [Answer (''Event '' @ apostrophe @ title @ apostrophe
                           @ '' created successfully! You'' @ apostrophe
                           @ ''ll be reminded at the set time.'') MainMenu,
                         CallbackAnswer None],
       o_log = [], o_raised = None\<rparr>"
    using dat user seg draft cid nf ok
    by (simp add: process_category_def bind_exc_def data_get_def create_event_def)
  have button: "\<exists>c \<in> set (categories d). c_oid c = cid"
    if kb: "get_category_keyboard uid d0 = Inline bs" and mem: "(label, dat) \<in> set bs"
      and pre: "startswith dat ''cat_''" and sub: "set (categories d0) \<subseteq> set (categories d)"
      and valid: "\<forall>c \<in> set (categories d0). c_oid c < 16 ^ 24"
    for uid d0 bs label
  proof -
    from kb mem pre obtain c where c: "c \<in> set (categories d0)" and d: "dat = ''cat_'' @ str_oid (c_oid c)"
      by (auto simp: get_category_keyboard_def)
    from seg have "seg = str_oid (c_oid c)" unfolding d category_button_segment by simp
    with cid valid c have "cid = c_oid c" by (simp add: ObjectId_str_oid)
    with c sub show ?thesis by auto
  qed
  show ?thesis
    using dat user seg cid draft button by (simp add: out) blast
qed

theorem process_category_commit_witness:
  "map e_category_id
     (events (o_db (process_category False example_clock keyboard_press category_ctx example_db)))
     = [1, 1, 1]
   \<and> (\<exists>c \<in> set (categories example_db). c_oid c = 1)"
proof -
  have kb: "get_category_keyboard ''42'' example_db
              = Inline [(''Work'', ''cat_'' @ str_oid 1), (emoji_plus @ '' Add Category'', ''add_category'')]"
    by (simp add: get_category_keyboard_def example_db_def example_category_def)
  have seg: "py_index (split_on CHR ''_'' (''cat_'' @ str_oid 1)) 1 = Inr (str_oid 1)"
    by (rule category_button_segment)
  have oid: "ObjectId (str_oid 1) = Inr 1" by (simp add: ObjectId_str_oid)
  from process_category_commit [OF keyboard_press_changes]
  obtain dat user seg' cid title description date_time where all:
    "cb_data keyboard_press = Some dat \<and> cb_from_user keyboard_press = Some user
         \<and> py_index (split_on CHR ''_'' dat) 1 = Inr seg' \<and> ObjectId seg' = Inr cid
         \<and> data_title category_ctx = Some title \<and> data_description category_ctx = Some description
         \<and> data_date_time category_ctx = Some date_time
         \<and> events (o_db (process_category False example_clock keyboard_press category_ctx example_db))
             = events example_db @ [\<lparr>e_oid = next_oid example_db, e_user_id = str_int (tg_id user),
                 e_title = title, e_description = description, e_date_time = date_time,
                 e_category_id = cid, e_created_at = now_utc example_clock, e_notified = False\<rparr>]
         \<and> categories (o_db (process_category False example_clock keyboard_press category_ctx example_db)) = categories example_db
         \<and> o_fsm (process_category False example_clock keyboard_press category_ctx example_db) = fsm_clear category_ctx
         \<and> (\<forall>uid d0 bs label.
               get_category_keyboard uid d0 = Inline bs \<and> (label, dat) \<in> set bs
               \<and> startswith dat ''cat_'' \<and> set (categories d0) \<subseteq> set (categories example_db)
               \<and> (\<forall>c \<in> set (categories d0). c_oid c < 16 ^ 24)
               \<longrightarrow> (\<exists>c \<in> set (categories example_db). c_oid c = cid))"
    by (elim exE) (rule that)
  from all have dat: "cb_data keyboard_press = Some dat"
    and seg': "py_index (split_on CHR ''_'' dat) 1 = Inr seg'" and cid: "ObjectId seg' = Inr cid"
    and evs: "events (o_db (process_category False example_clock keyboard_press category_ctx example_db))
        = events example_db @ [\<lparr>e_oid = next_oid example_db, e_user_id = str_int (tg_id user),
                 e_title = title, e_description = description, e_date_time = date_time,
                 e_category_id = cid, e_created_at = now_utc example_clock, e_notified = False\<rparr>]"
    and ex: "\<forall>uid d0 bs label.
               get_category_keyboard uid d0 = Inline bs \<and> (label, dat) \<in> set bs
               \<and> startswith dat ''cat_'' \<and> set (categories d0) \<subseteq> set (categories example_db)
               \<and> (\<forall>c \<in> set (categories d0). c_oid c < 16 ^ 24)
               \<longrightarrow> (\<exists>c \<in> set (categories example_db). c_oid c = cid)"
    by blast+
  from dat have d: "dat = ''cat_'' @ str_oid 1" by (simp add: keyboard_press_def)
  from seg' have "seg' = str_oid 1" unfolding d seg by simp
  with oid cid have c1: "cid = 1" by simp
  have "(''Work'', dat) \<in> set [(''Work'', ''cat_'' @ str_oid 1),
           (emoji_plus @ '' Add Category'', ''add_category'')]"
    unfolding d by simp
  moreover have "startswith dat ''cat_''" unfolding d by simp
  moreover have "\<forall>c \<in> set (categories example_db). c_oid c < 16 ^ 24"
    by (simp add: example_db_def example_category_def)
  ultimately have "\<exists>c \<in> set (categories example_db). c_oid c = cid"
    using ex kb by blast
  moreover have "map e_category_id (events example_db) = [1, 1]"
    by (simp add: example_db_def example_event_def)
  ultimately show ?thesis using evs c1 by simp
qed

text \<open>
  The claim of C6 fails for callback data that passes the handler's filter and names an
  id no category has: the event is committed with that reference.
\<close>

theorem process_category_unchecked_counterexample:
  "process_category_filter forged_press category_ctx
   \<and> map e_category_id
        (events (o_db (process_category False example_clock forged_press category_ctx empty_db)))
       = [0x0123456789abcdef01234567]
   \<and> categories (o_db (process_category False example_clock forged_press category_ctx empty_db))
       = []"
  by (simp add: process_category_filter_def process_category_def forged_press_def category_ctx_def
      py_index_def forged_oid bind_exc_def data_get_def create_event_def empty_db_def)

section \<open>Registration\<close>

text \<open>
  An upsert changes the first match or appends the fresh document. One turn of the loop
  over the default categories therefore leaves the store as it is when the user already
  has a category of that name, and appends one otherwise.
\<close>

lemma update_one_no_match: "\<forall>x \<in> set xs. \<not> flt x \<Longrightarrow> update_one flt upd xs = (xs, 0)"
  by (induction xs) auto

lemma update_one_fixed: "\<forall>x. flt x \<longrightarrow> upd x = x \<Longrightarrow> fst (update_one flt upd xs) = xs"
  by (induction xs) (auto split: prod.splits)

lemma count_positive: "0 < count_documents P xs \<longleftrightarrow> (\<exists>x \<in> set xs. P x)"
  by (auto simp: count_documents_def filter_empty_conv)

lemma count_append: "count_documents P (xs @ ys) = count_documents P xs + count_documents P ys"
  by (simp add: count_documents_def)

lemma upsert_one_cases:
  "upsert_one flt upd fresh xs =
     (if \<exists>x \<in> set xs. flt x then (fst (update_one flt upd xs), 1) else (xs @ [fresh], 0))"
  by (simp add: upsert_one_def case_prod_beta update_one_matched)

lemma count_by_key:
  "count_documents (\<lambda>x. key x = k) xs = count_documents (\<lambda>y. y = k) (map key xs)"
  by (simp add: count_documents_def filter_map comp_def)

lemma ensure_category_cases:
  "ensure_category uid d cat =
     (if \<exists>c \<in> set (categories d). c_user_id c = uid \<and> c_name c = cat then d
      else d\<lparr>categories := categories d @
                 [\<lparr>c_oid = next_oid d, c_user_id = uid, c_name = cat, c_created_at = None\<rparr>],
              next_oid := Suc (next_oid d)\<rparr>)"
proof (cases "\<exists>c \<in> set (categories d). c_user_id c = uid \<and> c_name c = cat")
  case True
  let ?flt = "\<lambda>c. c_user_id c = uid \<and> c_name c = cat"
  let ?upd = "\<lambda>c. c\<lparr>c_name := cat\<rparr>"
  have "fst (update_one ?flt ?upd (categories d)) = categories d"
    by (rule update_one_fixed) auto
  moreover have "snd (update_one ?flt ?upd (categories d)) = 1"
    using True by (simp add: update_one_matched)
  ultimately have "update_one ?flt ?upd (categories d) = (categories d, 1)"
    by (metis prod.collapse)
  with True show ?thesis by (simp add: ensure_category_def upsert_one_def)
next
  case False
  then have "update_one (\<lambda>c. c_user_id c = uid \<and> c_name c = cat) (\<lambda>c. c\<lparr>c_name := cat\<rparr>)
               (categories d) = (categories d, 0)"
    by (intro update_one_no_match) auto
  with False show ?thesis by (simp add: ensure_category_def upsert_one_def)
qed

lemma ensure_category_users: "users (ensure_category uid d cat) = users d"
  by (simp add: ensure_category_cases)

lemma ensure_category_events: "events (ensure_category uid d cat) = events d"
  by (simp add: ensure_category_cases)

lemma count_ensure_category:
  "count_documents (\<lambda>c. c_user_id c = uid \<and> c_name c = cat) (categories (ensure_category uid d cat'))
     = (if cat' = cat then max 1 (count_documents (\<lambda>c. c_user_id c = uid \<and> c_name c = cat) (categories d))
        else count_documents (\<lambda>c. c_user_id c = uid \<and> c_name c = cat) (categories d))"
proof (cases "\<exists>c \<in> set (categories d). c_user_id c = uid \<and> c_name c = cat'")
  case True
  then have same: "ensure_category uid d cat' = d" by (simp add: ensure_category_cases)
  show ?thesis
  proof (cases "cat' = cat")
    case eq: True
    with True have "0 < count_documents (\<lambda>c. c_user_id c = uid \<and> c_name c = cat) (categories d)"
      by (simp add: count_positive)
    then show ?thesis unfolding same using eq by (simp add: max_def)
  next
    case False
    then show ?thesis unfolding same by simp
  qed
next
  case False
  then have none: "cat' = cat \<Longrightarrow> count_documents (\<lambda>c. c_user_id c = uid \<and> c_name c = cat) (categories d) = 0"
    using count_positive [of "\<lambda>c. c_user_id c = uid \<and> c_name c = cat" "categories d"] by auto
  from False show ?thesis
    by (auto simp: ensure_category_cases count_append none) (simp_all add: count_documents_def)
qed

lemma foldl_ensure_users: "users (foldl (ensure_category uid) d cats) = users d"
  by (induction cats arbitrary: d) (auto simp: ensure_category_users)

lemma foldl_ensure_events: "events (foldl (ensure_category uid) d cats) = events d"
  by (induction cats arbitrary: d) (auto simp: ensure_category_events)

lemma count_foldl_ensure:
  "count_documents (\<lambda>c. c_user_id c = uid \<and> c_name c = cat)
      (categories (foldl (ensure_category uid) d cats))
     = (if cat \<in> set cats then max 1 (count_documents (\<lambda>c. c_user_id c = uid \<and> c_name c = cat) (categories d))
        else count_documents (\<lambda>c. c_user_id c = uid \<and> c_name c = cat) (categories d))"
  by (induction cats arbitrary: d) (auto simp: count_ensure_category)

lemma foldl_ensure_fixed:
  "\<forall>cat \<in> set cats. \<exists>c \<in> set (categories d). c_user_id c = uid \<and> c_name c = cat
     \<Longrightarrow> foldl (ensure_category uid) d cats = d"
  by (induction cats) (auto simp: ensure_category_cases)

lemma register_user_users:
  "users (register_user clock user d) =
     (if \<exists>u \<in> set (users d). u_user_id u = str_int (tg_id user)
      then fst (update_one (\<lambda>u. u_user_id u = str_int (tg_id user))
             (\<lambda>u. u\<lparr>u_username := tg_username user, u_first_name := tg_first_name user,
                     u_last_name := tg_last_name user, u_created_at := now_utc clock\<rparr>) (users d))
      else users d @ [\<lparr>u_oid = next_oid d, u_user_id = str_int (tg_id user),
              u_username = tg_username user, u_first_name = tg_first_name user,
              u_last_name = tg_last_name user, u_created_at = now_utc clock\<rparr>])"
  by (simp add: register_user_def Let_def upsert_one_cases foldl_ensure_users)

lemma register_user_events: "events (register_user clock user d) = events d"
  by (simp add: register_user_def Let_def upsert_one_cases foldl_ensure_events split: prod.splits)

lemma register_user_user_ids:
  "map u_user_id (users (register_user clock user d)) =
     (if \<exists>u \<in> set (users d). u_user_id u = str_int (tg_id user) then map u_user_id (users d)
      else map u_user_id (users d) @ [str_int (tg_id user)])"
  by (simp add: register_user_users update_one_ids)

lemma register_user_count_user:
  "count_documents (\<lambda>u. u_user_id u = str_int (tg_id user)) (users (register_user clock user d))
     = max 1 (count_documents (\<lambda>u. u_user_id u = str_int (tg_id user)) (users d))"
proof (cases "\<exists>u \<in> set (users d). u_user_id u = str_int (tg_id user)")
  case True
  then have "0 < count_documents (\<lambda>u. u_user_id u = str_int (tg_id user)) (users d)"
    by (simp add: count_positive)
  moreover have "count_documents (\<lambda>u. u_user_id u = str_int (tg_id user)) (users (register_user clock user d))
      = count_documents (\<lambda>u. u_user_id u = str_int (tg_id user)) (users d)"
    using True
    by (simp add: count_by_key [of u_user_id] register_user_user_ids del: count_by_key)
  ultimately show ?thesis by (simp add: max_def)
next
  case False
  then have "count_documents (\<lambda>u. u_user_id u = str_int (tg_id user)) (users d) = 0"
    using count_positive [of "\<lambda>u. u_user_id u = str_int (tg_id user)" "users d"] by auto
  with False show ?thesis
    by (simp add: register_user_users count_append) (simp add: count_documents_def)
qed

lemma register_user_count_category:
  "count_documents (\<lambda>c. c_user_id c = str_int (tg_id user) \<and> c_name c = cat)
      (categories (register_user clock user d))
     = (if cat \<in> set default_categories
        then max 1 (count_documents (\<lambda>c. c_user_id c = str_int (tg_id user) \<and> c_name c = cat) (categories d))
        else count_documents (\<lambda>c. c_user_id c = str_int (tg_id user) \<and> c_name c = cat) (categories d))"
  by (simp add: register_user_def Let_def count_foldl_ensure split: prod.splits)

lemma register_user_has_defaults:
  assumes "cat \<in> set default_categories"
  shows "\<exists>c \<in> set (categories (register_user clock user d)).
           c_user_id c = str_int (tg_id user) \<and> c_name c = cat"
proof -
  have "0 < count_documents (\<lambda>c. c_user_id c = str_int (tg_id user) \<and> c_name c = cat)
              (categories (register_user clock user d))"
    using assms by (simp add: register_user_count_category)
  then show ?thesis by (simp add: count_positive)
qed

lemma register_user_again:
  assumes "\<exists>u \<in> set (users d). u_user_id u = str_int (tg_id user)"
    and "\<forall>cat \<in> set default_categories.
           \<exists>c \<in> set (categories d). c_user_id c = str_int (tg_id user) \<and> c_name c = cat"
  shows "categories (register_user clock user d) = categories d"
    and "next_oid (register_user clock user d) = next_oid d"
proof -
  let ?d' = "d\<lparr>users := fst (update_one (\<lambda>u. u_user_id u = str_int (tg_id user))
             (\<lambda>u. u\<lparr>u_username := tg_username user, u_first_name := tg_first_name user,
                     u_last_name := tg_last_name user, u_created_at := now_utc clock\<rparr>) (users d))\<rparr>"
  have reg: "register_user clock user d = foldl (ensure_category (str_int (tg_id user))) ?d' default_categories"
    using assms(1) by (simp add: register_user_def Let_def upsert_one_cases)
  have "foldl (ensure_category (str_int (tg_id user))) ?d' default_categories = ?d'"
    by (rule foldl_ensure_fixed) (use assms(2) in simp)
  with reg show "categories (register_user clock user d) = categories d"
    and "next_oid (register_user clock user d) = next_oid d" by simp_all
qed

lemma register_user_registered:
  "\<exists>u \<in> set (users (register_user clock user d)). u_user_id u = str_int (tg_id user)"
proof -
  have "0 < count_documents (\<lambda>u. u_user_id u = str_int (tg_id user)) (users (register_user clock user d))"
    by (simp add: register_user_count_user)
  then show ?thesis by (simp add: count_positive)
qed

lemma register_user_fresh_names:
  assumes "\<forall>c \<in> set (categories d). c_user_id c \<noteq> str_int (tg_id user)"
  shows "map c_name (filter (\<lambda>c. c_user_id c = str_int (tg_id user)) (categories (register_user clock user d)))
           = [''Work'', ''Personal'', ''Health'', ''Other'']"
proof -
  have none: "filter (\<lambda>c. c_user_id c = str_int (tg_id user)) (categories d) = []"
    using assms by (simp add: filter_empty_conv)
  show ?thesis
    using assms
    by (simp add: register_user_def Let_def default_categories_def ensure_category_cases none
        split: prod.splits)
qed

text \<open>
  Claim C7. Registration is idempotent: running it twice for a user leaves exactly one
  user record for the user and exactly four default categories (Work, Personal, Health,
  Other), not eight; running it again never duplicates the default categories.

  \<open>d1\<close> is the store after the first registration and \<open>d2\<close> the store after the
  second. The second one adds no category, no user record and no event, and consumes no
  id. After both, the user has as many records as before the first, and one when there
  was none; for each default name the user has as many categories of that name as
  before the first, and one when there was none; a user who had no category has
  exactly the four default ones.
\<close>

theorem register_user_idempotent:
  fixes clock1 clock2 :: datetime and user :: tg_user and d :: db
  defines "uid \<equiv> str_int (tg_id user)"
  defines "d1 \<equiv> register_user clock1 user d"
  defines "d2 \<equiv> register_user clock2 user d1"
  shows "categories d2 = categories d1
       \<and> map u_user_id (users d2) = map u_user_id (users d1)
       \<and> events d2 = events d1 \<and> next_oid d2 = next_oid d1
       \<and> count_documents (\<lambda>u. u_user_id u = uid) (users d2)
           = max 1 (count_documents (\<lambda>u. u_user_id u = uid) (users d))
       \<and> (\<forall>cat \<in> set default_categories.
            count_documents (\<lambda>c. c_user_id c = uid \<and> c_name c = cat) (categories d2)
              = max 1 (count_documents (\<lambda>c. c_user_id c = uid \<and> c_name c = cat) (categories d)))
       \<and> ((\<forall>c \<in> set (categories d). c_user_id c \<noteq> uid) \<longrightarrow>
            map c_name (filter (\<lambda>c. c_user_id c = uid) (categories d2))
              = [''Work'', ''Personal'', ''Health'', ''Other''])"
proof -
  have reg: "\<exists>u \<in> set (users d1). u_user_id u = str_int (tg_id user)"
    unfolding d1_def by (rule register_user_registered)
  have defs: "\<forall>cat \<in> set default_categories.
           \<exists>c \<in> set (categories d1). c_user_id c = str_int (tg_id user) \<and> c_name c = cat"
    unfolding d1_def by (simp add: register_user_has_defaults)
  have cats: "categories d2 = categories d1" and oid: "next_oid d2 = next_oid d1"
    unfolding d2_def using reg defs by (rule register_user_again)+
  have ids: "map u_user_id (users d2) = map u_user_id (users d1)"
    unfolding d2_def using reg by (simp add: register_user_user_ids)
  have evs: "events d2 = events d1" unfolding d2_def by (rule register_user_events)
  have "count_documents (\<lambda>u. u_user_id u = uid) (users d2)
           = count_documents (\<lambda>u. u_user_id u = uid) (users d1)"
    unfolding count_by_key [of u_user_id] ids by (rule refl)
  then have cnt_u: "count_documents (\<lambda>u. u_user_id u = uid) (users d2)
           = max 1 (count_documents (\<lambda>u. u_user_id u = uid) (users d))"
    unfolding uid_def d1_def by (simp only: register_user_count_user)
  have cnt_c: "count_documents (\<lambda>c. c_user_id c = uid \<and> c_name c = cat) (categories d2)
              = max 1 (count_documents (\<lambda>c. c_user_id c = uid \<and> c_name c = cat) (categories d))"
    if "cat \<in> set default_categories" for cat
    unfolding cats using that unfolding uid_def d1_def by (simp add: register_user_count_category)
  have names: "map c_name (filter (\<lambda>c. c_user_id c = uid) (categories d2))
              = [''Work'', ''Personal'', ''Health'', ''Other'']"
    if "\<forall>c \<in> set (categories d). c_user_id c \<noteq> uid"
    unfolding cats using that unfolding uid_def d1_def by (rule register_user_fresh_names)
  from cats ids evs oid cnt_u cnt_c names show ?thesis by blast
qed

theorem register_user_idempotent_witness:
  "count_documents (\<lambda>u. u_user_id u = str_int (tg_id example_user))
      (users (register_user example_clock example_user
                (register_user example_clock example_user empty_db))) = 1
   \<and> map c_name (filter (\<lambda>c. c_user_id c = str_int (tg_id example_user))
        (categories (register_user example_clock example_user
                       (register_user example_clock example_user empty_db))))
       = [''Work'', ''Personal'', ''Health'', ''Other'']
   \<and> length (categories (register_user example_clock example_user
                       (register_user example_clock example_user empty_db))) = 4"
proof -
  have e: "users empty_db = []" "categories empty_db = []" by (simp_all add: empty_db_def)
  have four: "length (categories (register_user example_clock example_user empty_db)) = 4"
    by (simp add: register_user_def Let_def default_categories_def ensure_category_cases
        upsert_one_cases empty_db_def)
  note twice = register_user_idempotent [where user = example_user and d = empty_db
      and ?clock1.0 = example_clock and ?clock2.0 = example_clock]
  from twice have cats: "categories (register_user example_clock example_user
                       (register_user example_clock example_user empty_db))
        = categories (register_user example_clock example_user empty_db)"
    by blast
  from twice have cnt: "count_documents (\<lambda>u. u_user_id u = str_int (tg_id example_user))
      (users (register_user example_clock example_user
                (register_user example_clock example_user empty_db)))
      = max 1 (count_documents (\<lambda>u. u_user_id u = str_int (tg_id example_user)) (users empty_db))"
    by blast
  from twice have "(\<forall>c \<in> set (categories empty_db). c_user_id c \<noteq> str_int (tg_id example_user)) \<longrightarrow>
      map c_name (filter (\<lambda>c. c_user_id c = str_int (tg_id example_user))
        (categories (register_user example_clock example_user
                       (register_user example_clock example_user empty_db))))
       = [''Work'', ''Personal'', ''Health'', ''Other'']"
    by blast
  then have names: "map c_name (filter (\<lambda>c. c_user_id c = str_int (tg_id example_user))
        (categories (register_user example_clock example_user
                       (register_user example_clock example_user empty_db))))
       = [''Work'', ''Personal'', ''Health'', ''Other'']"
    by (simp add: e)
  from cnt have "count_documents (\<lambda>u. u_user_id u = str_int (tg_id example_user))
      (users (register_user example_clock example_user
                (register_user example_clock example_user empty_db))) = 1"
    by (simp add: e count_documents_def)
  with names four show ?thesis unfolding cats by simp
qed

section \<open>The listing of upcoming events\<close>

lemma str_int_42: "str_int 42 = ''42''"
  by code_simp

lemma render_events_closed:
  "render_events d response evs
     = response @ concat (map (\<lambda>ev. render_event ev
                                 (the (find_one (\<lambda>c. c_oid c = e_category_id ev) (categories d))))
                          (filter (\<lambda>ev. find_one (\<lambda>c. c_oid c = e_category_id ev) (categories d) \<noteq> None)
                             evs))"
  by (induction evs arbitrary: response) (auto split: option.splits)

lemma upcoming_example:
  "get_upcoming_events example_clock ''42'' dangling_db
     = [example_event 2 ''Team Sync'', (example_event 3 ''Review'')\<lparr>e_category_id := 9\<rparr>]"
  by code_simp

text \<open>
  Claim C10. In the listing of upcoming events, an event the query returns whose category
  id resolves to no category is left out of the rendered text, with no error message and
  no placeholder, while the events whose category resolves are rendered.

  For a known sender with at least one event returned by the query, the handler sends
  one message: the header followed by the entries of exactly those returned events whose
  category is found, in the order of the query.
\<close>

theorem upcoming_events_omits_dangling:
  assumes "msg_from_user msg = Some user"
    and "get_upcoming_events clock (str_int (tg_id user)) d \<noteq> []"
  shows "upcoming_events clock msg ctx d =
           replied (fsm_clear ctx) d
             [Answer (upcoming_header @ concat
                 (map (\<lambda>ev. render_event ev
                          (the (find_one (\<lambda>c. c_oid c = e_category_id ev) (categories d))))
                    (filter (\<lambda>ev. find_one (\<lambda>c. c_oid c = e_category_id ev) (categories d) \<noteq> None)
                       (get_upcoming_events clock (str_int (tg_id user)) d)))) MainMenu]"
  using assms by (simp add: upcoming_events_def Let_def render_events_closed)

theorem upcoming_events_omits_dangling_witness:
  "upcoming_events example_clock \<lparr>msg_text = None, msg_from_user = Some example_user\<rparr>
      example_draft dangling_db
     = replied (fsm_clear example_draft) dangling_db
         [Answer (upcoming_header @ render_event (example_event 2 ''Team Sync'') example_category)
            MainMenu]"
proof -
  have u: "str_int (tg_id example_user) = ''42''" by (simp add: example_user_def str_int_42)
  have a: "msg_from_user \<lparr>msg_text = None, msg_from_user = Some example_user\<rparr> = Some example_user"
    by simp
  have b: "get_upcoming_events example_clock (str_int (tg_id example_user)) dangling_db \<noteq> []"
    by (simp add: u upcoming_example)
  have c: "categories dangling_db = [example_category]" by (simp add: dangling_db_def example_db_def)
  show ?thesis
    unfolding upcoming_events_omits_dangling [OF a b] u upcoming_example c
    by (simp add: find_one_def example_event_def example_category_def)
qed

section \<open>Creating an event and listing it\<close>








section \<open>The statistics of a user\<close>

lemma stage_group_empty: "stage_group evs = [] \<longleftrightarrow> evs = []"
  by (simp add: stage_group_def)

lemma stage_group_member:
  "g \<in> set (stage_group evs) \<longleftrightarrow>
     fst g \<in> e_category_id ` set evs
     \<and> snd g = count_documents (\<lambda>e. e_category_id e = fst g) evs"
  by (cases g) (auto simp: stage_group_def)

lemma stage_sort_top:
  assumes "gs \<noteq> []"
  shows "\<exists>g \<in> set gs. take 1 (stage_sort gs) = [g] \<and> (\<forall>g' \<in> set gs. snd g' \<le> snd g)"
proof -
  let ?ss = "stage_sort gs"
  have set: "set ?ss = set gs" and len: "length ?ss = length gs"
    and srt: "sorted (map (\<lambda>g. - int (snd g)) ?ss)"
    by (simp_all add: stage_sort_def)
  from len assms obtain g rest where ss: "?ss = g # rest" by (cases ?ss) auto
  from srt have "\<forall>g' \<in> set rest. - int (snd g) \<le> - int (snd g')"
    unfolding ss by simp
  then have "\<forall>g' \<in> set ?ss. snd g' \<le> snd g" unfolding ss by auto
  moreover have "g \<in> set gs" using set unfolding ss by auto
  moreover have "take 1 ?ss = [g]" unfolding ss by simp
  ultimately show ?thesis using set by auto
qed

lemma filter_find_None: "List.find P xs = None \<Longrightarrow> filter P xs = []"
  by (induction xs) (auto split: if_splits)

lemma filter_find_Some: "List.find P xs = Some y \<Longrightarrow> \<exists>ys. filter P xs = y # ys"
  by (induction xs) (auto split: if_splits)

lemma lookup_unwind_single:
  "stage_lookup_unwind d [(cid, n)] = map (\<lambda>c. (cid, n, c)) (filter (\<lambda>c. c_oid c = cid) (categories d))"
  by (simp add: stage_lookup_unwind_def)

lemma month_example:
  "count_documents (\<lambda>e. e_user_id e = ''42''
                \<and> utc_micros \<lparr>year = year example_clock, month = month example_clock, day = 1,
                      hour = 0, minute = 0, second = 0, microsecond = 0, tzinfo = Some 0\<rparr>
                    \<le> utc_micros (e_created_at e)) (events example_db) = 2"
  by code_simp

text \<open>
  Claim C9, as amended. For a user the statistics are (a) the number of the user's
  events created at or after the start of the current calendar month in UTC, and (b)
  the name and the count of a category with the most events among all the user's events,
  when that category's id resolves to a category; the sentinel name \<^verbatim>\<open>None\<close> with
  count 0 is returned when the user has no events, and also when the id of the most used
  category resolves to no category.

  \<open>mine\<close> are the user's events and \<open>uses cid\<close> the number of them that reference the
  category id \<open>cid\<close>. Whichever of several most used ids the aggregation puts first, the
  one it reports is used by at least one event and by no fewer events than any other.
\<close>

theorem get_statistics_result:
  fixes clock :: datetime and user_id :: string and d :: db
  defines "mine \<equiv> filter (\<lambda>e. e_user_id e = user_id) (events d)"
  defines "uses \<equiv> \<lambda>cid. count_documents (\<lambda>e. e_category_id e = cid) mine"
  defines "st \<equiv> get_statistics clock user_id d"
  shows "events_this_month st
           = count_documents (\<lambda>e. e_user_id e = user_id
                \<and> utc_micros \<lparr>year = year clock, month = month clock, day = 1, hour = 0,
                      minute = 0, second = 0, microsecond = 0, tzinfo = Some 0\<rparr>
                    \<le> utc_micros (e_created_at e)) (events d)
       \<and> (mine = [] \<longrightarrow> most_used_category st = ''None'' \<and> most_used_count st = 0)
       \<and> (mine \<noteq> [] \<longrightarrow>
            (\<exists>cid. cid \<in> e_category_id ` set mine \<and> 0 < uses cid \<and> (\<forall>cid'. uses cid' \<le> uses cid)
               \<and> (case find_one (\<lambda>c. c_oid c = cid) (categories d) of
                     None \<Rightarrow> most_used_category st = ''None'' \<and> most_used_count st = 0
                   | Some c \<Rightarrow> most_used_category st = c_name c \<and> most_used_count st = uses cid)))"
proof -
  have month: "events_this_month st
           = count_documents (\<lambda>e. e_user_id e = user_id
                \<and> utc_micros \<lparr>year = year clock, month = month clock, day = 1, hour = 0,
                      minute = 0, second = 0, microsecond = 0, tzinfo = Some 0\<rparr>
                    \<le> utc_micros (e_created_at e)) (events d)"
  proof -
    have "start_of_month (now_utc clock)
            = \<lparr>year = year clock, month = month clock, day = 1, hour = 0,
                      minute = 0, second = 0, microsecond = 0, tzinfo = Some 0\<rparr>"
      by (simp add: start_of_month_def now_utc_def)
    then show ?thesis by (simp add: st_def get_statistics_def Let_def)
  qed
  have none: "most_used_category st = ''None'' \<and> most_used_count st = 0" if "mine = []"
    using that
    by (simp add: st_def get_statistics_def Let_def most_used_pipeline_def mine_def
        stage_group_def stage_sort_def stage_lookup_unwind_def)
  have some: "\<exists>cid. cid \<in> e_category_id ` set mine \<and> 0 < uses cid \<and> (\<forall>cid'. uses cid' \<le> uses cid)
               \<and> (case find_one (\<lambda>c. c_oid c = cid) (categories d) of
                     None \<Rightarrow> most_used_category st = ''None'' \<and> most_used_count st = 0
                   | Some c \<Rightarrow> most_used_category st = c_name c \<and> most_used_count st = uses cid)"
    if "mine \<noteq> []"
  proof -
    from that have "stage_group mine \<noteq> []" by (simp add: stage_group_empty)
    from stage_sort_top [OF this] obtain g where g: "g \<in> set (stage_group mine)"
      and top: "take 1 (stage_sort (stage_group mine)) = [g]"
      and best: "\<forall>g' \<in> set (stage_group mine). snd g' \<le> snd g"
      by blast
    obtain cid n where gn: "g = (cid, n)" by (cases g)
    from g have cid: "cid \<in> e_category_id ` set mine" and n: "n = uses cid"
      by (simp_all add: stage_group_member gn uses_def)
    from cid have pos: "0 < uses cid"
      by (auto simp: uses_def count_positive)
    have most: "uses cid' \<le> uses cid" for cid'
    proof (cases "cid' \<in> e_category_id ` set mine")
      case True
      then have "(cid', uses cid') \<in> set (stage_group mine)"
        by (simp add: stage_group_member uses_def)
      with best show ?thesis by (auto simp: gn n)
    next
      case False
      then have "uses cid' = 0"
        using count_positive [of "\<lambda>e. e_category_id e = cid'" mine] by (auto simp: uses_def)
      then show ?thesis by simp
    qed
    have pipe: "most_used_pipeline user_id d
                  = map (\<lambda>c. (cid, n, c)) (filter (\<lambda>c. c_oid c = cid) (categories d))"
      unfolding most_used_pipeline_def mine_def [symmetric] top gn lookup_unwind_single
      by (rule refl)
    have "case find_one (\<lambda>c. c_oid c = cid) (categories d) of
                     None \<Rightarrow> most_used_category st = ''None'' \<and> most_used_count st = 0
                   | Some c \<Rightarrow> most_used_category st = c_name c \<and> most_used_count st = uses cid"
    proof (cases "List.find (\<lambda>c. c_oid c = cid) (categories d)")
      case None
      from filter_find_None [OF this] show ?thesis
        by (simp add: st_def get_statistics_def Let_def pipe find_one_def None)
    next
      case (Some c)
      from filter_find_Some [OF this] obtain ys where
        "filter (\<lambda>c. c_oid c = cid) (categories d) = c # ys" ..
      then show ?thesis
        by (simp add: st_def get_statistics_def Let_def pipe find_one_def Some n)
    qed
    with cid pos most show ?thesis by blast
  qed
  from month none some show ?thesis by blast
qed

theorem get_statistics_result_witness:
  "events_this_month (get_statistics example_clock ''42'' example_db) = 2
   \<and> most_used_category (get_statistics example_clock ''42'' example_db) = ''Work''
   \<and> most_used_count (get_statistics example_clock ''42'' example_db) = 2"
proof -
  note result = get_statistics_result [where user_id = "''42''" and d = example_db
      and clock = example_clock]
  have mine: "filter (\<lambda>e. e_user_id e = ''42'') (events example_db)
                = [example_event 2 ''Team Sync'', example_event 3 ''Review'']"
    by (simp add: example_db_def example_event_def)
  from result have month:
    "events_this_month (get_statistics example_clock ''42'' example_db) = 2"
    unfolding month_example by blast
  let ?mine = "filter (\<lambda>e. e_user_id e = ''42'') (events example_db)"
  let ?st = "get_statistics example_clock ''42'' example_db"
  have ne: "?mine \<noteq> []" by (simp add: mine)
  from result have
    "?mine \<noteq> [] \<longrightarrow>
       (\<exists>cid. cid \<in> e_category_id ` set ?mine
          \<and> 0 < count_documents (\<lambda>e. e_category_id e = cid) ?mine
          \<and> (\<forall>cid'. count_documents (\<lambda>e. e_category_id e = cid') ?mine
                     \<le> count_documents (\<lambda>e. e_category_id e = cid) ?mine)
          \<and> (case find_one (\<lambda>c. c_oid c = cid) (categories example_db) of
                None \<Rightarrow> most_used_category ?st = ''None'' \<and> most_used_count ?st = 0
              | Some c \<Rightarrow> most_used_category ?st = c_name c
                  \<and> most_used_count ?st = count_documents (\<lambda>e. e_category_id e = cid) ?mine))"
    by (elim conjE)
  with ne obtain cid where cid: "cid \<in> e_category_id ` set ?mine"
    and top: "case find_one (\<lambda>c. c_oid c = cid) (categories example_db) of
                None \<Rightarrow> most_used_category ?st = ''None'' \<and> most_used_count ?st = 0
              | Some c \<Rightarrow> most_used_category ?st = c_name c
                  \<and> most_used_count ?st = count_documents (\<lambda>e. e_category_id e = cid) ?mine"
    by blast
  from cid have "cid = 1" by (simp add: mine example_event_def)
  with top have "most_used_category ?st = ''Work'' \<and> most_used_count ?st = 2"
    by (simp add: mine find_one_def example_db_def example_category_def example_event_def
        count_documents_def)
  with month show ?thesis by simp
qed

text \<open>
  The claim of C9 says that the sentinel is returned only for a user without events. A
  user whose only event references a category id that resolves to nothing has an event
  and gets the sentinel: \<^verbatim>\<open>$unwind\<close> drops the one group, whose lookup is empty.
\<close>

theorem get_statistics_sentinel_counterexample:
  "filter (\<lambda>e. e_user_id e = ''42'') (events orphan_db) \<noteq> []
   \<and> most_used_category (get_statistics example_clock ''42'' orphan_db) = ''None''
   \<and> most_used_count (get_statistics example_clock ''42'' orphan_db) = 0"
  by (simp add: get_statistics_def Let_def most_used_pipeline_def stage_group_def stage_sort_def
      stage_lookup_unwind_def count_documents_def orphan_db_def example_db_def example_event_def
      example_category_def)

end
